theory Spec2Isabelle
  imports Main
begin

section \<open>JavaScript values and ordinary objects\<close>

text \<open>
  The class \<^verbatim>\<open>ObservableService\<close> of \<^verbatim>\<open>src/main.js\<close> works on plain objects through
  \<^verbatim>\<open>Reflect.get\<close>, \<^verbatim>\<open>Reflect.set\<close>, \<^verbatim>\<open>Reflect.deleteProperty\<close>, \<^verbatim>\<open>Object.hasOwn\<close>,
  \<^verbatim>\<open>Object.is\<close>, \<^verbatim>\<open>Object.freeze\<close> and object spread. This section fixes the part of
  the language those calls need.

  Numbers are kept only as far as \<^verbatim>\<open>Object.is\<close> tells them apart: \<open>NaN\<close>, the negative
  zero, and the integer-valued numbers (\<open>Finite 0\<close> is the positive zero). Objects held as
  property values are references; \<open>VBuiltin\<close> is a built-in function object, named.
\<close>

type_synonym key = string

datatype jsnum = NaN | NegZero | Finite int

datatype jsval =
    VUndefined
  | VNull
  | VBool bool
  | VNumber jsnum
  | VString string
  | VObject nat
  | VBuiltin string

text \<open>\<^verbatim>\<open>Number::sameValue\<close> of ECMAScript, step by step.\<close>

definition Number_sameValue :: "jsnum \<Rightarrow> jsnum \<Rightarrow> bool" where
  "Number_sameValue x y =
     (if x = NaN \<and> y = NaN then True
      else if x = Finite 0 \<and> y = NegZero then False
      else if x = NegZero \<and> y = Finite 0 then False
      else x = y)"

text \<open>\<^verbatim>\<open>Number::equal\<close>, the comparison behind \<^verbatim>\<open>===\<close>, for contrast.\<close>

definition Number_equal :: "jsnum \<Rightarrow> jsnum \<Rightarrow> bool" where
  "Number_equal x y =
     (if x = NaN then False
      else if y = NaN then False
      else if x = Finite 0 \<and> y = NegZero then True
      else if x = NegZero \<and> y = Finite 0 then True
      else x = y)"

definition Object_is :: "jsval \<Rightarrow> jsval \<Rightarrow> bool" where
  "Object_is x y =
     (case (x, y) of
        (VNumber a, VNumber b) \<Rightarrow> Number_sameValue a b
      | _ \<Rightarrow> x = y)"

definition strict_equals :: "jsval \<Rightarrow> jsval \<Rightarrow> bool" where
  "strict_equals x y =
     (case (x, y) of
        (VNumber a, VNumber b) \<Rightarrow> Number_equal a b
      | _ \<Rightarrow> x = y)"

text \<open>
  An ordinary object: its own data properties with their attributes, the \<open>Extensible\<close>
  internal slot, and what its prototype chain offers, \<open>inherited\<close>: for each key the
  nearest data property on the chain. Own properties are enumerable; accessor properties
  (among them \<^verbatim>\<open>__proto__\<close> of \<^verbatim>\<open>Object.prototype\<close>) are left out.
\<close>

record property =
  pvalue :: jsval
  writable :: bool
  configurable :: bool

record jsobject =
  props :: "key \<rightharpoonup> property"
  extensible :: bool
  inherited :: "key \<rightharpoonup> property"

definition data_property :: "jsval \<Rightarrow> property" where
  \<comment> \<open>the descriptor \<^verbatim>\<open>CreateDataProperty\<close> defines\<close>
  "data_property v = \<lparr>pvalue = v, writable = True, configurable = True\<rparr>"

definition Object_prototype :: "key \<rightharpoonup> property" where
  \<comment> \<open>the function-valued data properties of \<^verbatim>\<open>Object.prototype\<close>, all writable\<close>
  "Object_prototype =
     map_of (map (\<lambda>k. (k, data_property (VBuiltin k)))
       [''constructor'', ''hasOwnProperty'', ''isPrototypeOf'', ''propertyIsEnumerable'',
        ''toLocaleString'', ''toString'', ''valueOf'',
        ''__defineGetter__'', ''__defineSetter__'', ''__lookupGetter__'', ''__lookupSetter__''])"

definition empty_object :: jsobject where
  \<comment> \<open>the literal \<^verbatim>\<open>{}\<close>\<close>
  "empty_object = \<lparr>props = Map.empty, extensible = True, inherited = Object_prototype\<rparr>"

definition entries :: "jsobject \<Rightarrow> (key \<rightharpoonup> jsval)" where
  \<comment> \<open>the key-value content of an object, attributes dropped\<close>
  "entries ob = (\<lambda>k. map_option pvalue (props ob k))"

definition Reflect_get :: "jsobject \<Rightarrow> key \<Rightarrow> jsval" where
  \<comment> \<open>\<^verbatim>\<open>OrdinaryGet\<close>: the own property, else the inherited one, else \<^verbatim>\<open>undefined\<close>\<close>
  "Reflect_get ob k =
     (case props ob k of
        Some p \<Rightarrow> pvalue p
      | None \<Rightarrow> (case inherited ob k of Some q \<Rightarrow> pvalue q | None \<Rightarrow> VUndefined))"

definition Object_hasOwn :: "jsobject \<Rightarrow> key \<Rightarrow> bool" where
  "Object_hasOwn ob k = (props ob k \<noteq> None)"

definition inherited_readonly :: "jsobject \<Rightarrow> key \<Rightarrow> bool" where
  \<comment> \<open>the chain has a non-writable data property of that name\<close>
  "inherited_readonly ob k = (case inherited ob k of None \<Rightarrow> False | Some q \<Rightarrow> \<not> writable q)"

definition Reflect_set :: "jsobject \<Rightarrow> key \<Rightarrow> jsval \<Rightarrow> bool \<times> jsobject" where
  \<comment> \<open>\<^verbatim>\<open>OrdinarySet\<close> with the object as its own receiver: an own property is written if
      writable; otherwise a read-only inherited property refuses, and else the property is
      created if the object is extensible\<close>
  "Reflect_set ob k v =
     (case props ob k of
        None \<Rightarrow>
          if inherited_readonly ob k then (False, ob)
          else if extensible ob then (True, ob\<lparr>props := (props ob)(k \<mapsto> data_property v)\<rparr>)
          else (False, ob)
      | Some p \<Rightarrow>
          if writable p then (True, ob\<lparr>props := (props ob)(k \<mapsto> p\<lparr>pvalue := v\<rparr>)\<rparr>)
          else (False, ob))"

definition Reflect_deleteProperty :: "jsobject \<Rightarrow> key \<Rightarrow> bool \<times> jsobject" where
  \<comment> \<open>\<^verbatim>\<open>OrdinaryDelete\<close>\<close>
  "Reflect_deleteProperty ob k =
     (case props ob k of
        None \<Rightarrow> (True, ob)
      | Some p \<Rightarrow>
          if configurable p then (True, ob\<lparr>props := (props ob)(k := None)\<rparr>)
          else (False, ob))"

definition spread :: "jsobject \<Rightarrow> jsobject" where
  \<comment> \<open>\<^verbatim>\<open>{ ...ob }\<close>: a new plain object with a fresh data property per own key of \<open>ob\<close>\<close>
  "spread ob =
     \<lparr>props = (\<lambda>k. map_option (\<lambda>p. data_property (pvalue p)) (props ob k)),
      extensible = True,
      inherited = Object_prototype\<rparr>"

definition Object_freeze :: "jsobject \<Rightarrow> jsobject" where
  "Object_freeze ob =
     ob\<lparr>props := (\<lambda>k. map_option (\<lambda>p. p\<lparr>writable := False, configurable := False\<rparr>) (props ob k)),
        extensible := False\<rparr>"



definition literal :: "(key \<times> jsval) list \<Rightarrow> jsobject" where
  \<comment> \<open>an object literal \<^verbatim>\<open>{k1: v1, ...}\<close>\<close>
  "literal kvs =
     \<lparr>props = map_of (map (\<lambda>(k, v). (k, data_property v)) kvs),
      extensible = True,
      inherited = Object_prototype\<rparr>"


section \<open>The service\<close>

text \<open>
  Objects live in a store, addressed by natural numbers; \<open>nxt\<close> is the next free address.
  The private fields of the class keep their names. \<open>target\<close> is the address of the source
  object handed to the constructor, which the class mutates in place; \<open>preBatchStaleState\<close>
  is the address of the current baseline object, which is only ever replaced, not written.
  The Proxy \<^verbatim>\<open>#state\<close> has no field of its own: it forwards reads to the target and
  routes writes and deletions to the two traps below.

  \<open>microtasks\<close> counts the jobs that \<^verbatim>\<open>addToQueue\<close> has put on the microtask queue with
  \<^verbatim>\<open>Promise.resolve().then(...)\<close> and that have not run yet. Both call sites of
  \<^verbatim>\<open>addToQueue\<close> pass \<^verbatim>\<open>this.#target\<close>, so all queued jobs are the same closure.

  \<open>subscribers\<close> is the Set as a list without duplicates, in insertion order, which is
  the order the delivery loop visits. \<open>trace\<close> is a ghost field: one entry per
  invocation \<^verbatim>\<open>subscriber(frozenFresh, frozenStale)\<close>, with the two addresses passed.
\<close>

datatype mutation =
    Assign key jsval   \<comment> \<open>\<^verbatim>\<open>service.state[key] = value\<close>\<close>
  | Remove key         \<comment> \<open>\<^verbatim>\<open>delete service.state[key]\<close>\<close>

datatype snapshot = Fresh | Stale

text \<open>
  A write or deletion comes in two forms. \<open>Strict\<close> is the expression
  \<^verbatim>\<open>obj[key] = value\<close> or \<^verbatim>\<open>delete obj[key]\<close> in strict code, as in the ES modules of this
  repository: when the object answers \<open>False\<close>, the expression throws a TypeError.
  \<open>Quiet\<close> is the same expression in sloppy code, or \<^verbatim>\<open>Reflect.set\<close> and
  \<^verbatim>\<open>Reflect.deleteProperty\<close>: the \<open>False\<close> is dropped.
\<close>

datatype mode = Strict | Quiet

text \<open>
  A subscriber is a function object, told apart by its identity. Its body is modelled as
  a straight-line sequence of calls on the service and on the two snapshots it receives,
  with no \<^verbatim>\<open>try\<close>: the first step that throws ends the body. Bodies leave the subscriber
  set alone.
\<close>

datatype action =
    Mutate mode mutation           \<comment> \<open>a write or deletion through \<^verbatim>\<open>service.state\<close>\<close>
  | CallAmendState key jsval       \<comment> \<open>\<^verbatim>\<open>service.amendState(key, value)\<close>\<close>
  | CallPruneState key             \<comment> \<open>\<^verbatim>\<open>service.pruneState(key)\<close>\<close>
  | Touch mode snapshot mutation   \<comment> \<open>a write or deletion on \<^verbatim>\<open>fresh\<close> or \<^verbatim>\<open>stale\<close>\<close>
  | Throw                          \<comment> \<open>\<^verbatim>\<open>throw new Error()\<close>\<close>

datatype callback = Callback nat "action list"

datatype completion = Normal | Thrown

datatype event = Delivered callback nat nat

record service =
  heap :: "nat \<Rightarrow> jsobject"
  nxt :: nat
  target :: nat
  preBatchStaleState :: nat
  queuedUpdateNotice :: bool
  subscribers :: "callback list"
  microtasks :: nat
  trace :: "event list"

definition alloc :: "jsobject \<Rightarrow> service \<Rightarrow> nat \<times> service" where
  "alloc ob s = (nxt s, s\<lparr>heap := (heap s)(nxt s := ob), nxt := Suc (nxt s)\<rparr>)"

definition ObservableService :: "jsobject \<Rightarrow> service" where
  \<comment> \<open>\<^verbatim>\<open>new ObservableService(source)\<close>: the source at address 0, the initial baseline \<^verbatim>\<open>{}\<close> at 1\<close>
  "ObservableService source =
     \<lparr>heap = (\<lambda>_. empty_object)(0 := source, 1 := empty_object),
      nxt = 2,
      target = 0,
      preBatchStaleState = 1,
      queuedUpdateNotice = False,
      subscribers = [],
      microtasks = 0,
      trace = []\<rparr>"

definition subscribe :: "callback \<Rightarrow> service \<Rightarrow> service" where
  \<comment> \<open>\<^verbatim>\<open>Set.prototype.add\<close>: appended unless already present\<close>
  "subscribe subscriber s =
     (if subscriber \<in> set (subscribers s) then s
      else s\<lparr>subscribers := subscribers s @ [subscriber]\<rparr>)"

definition unsubscribe :: "callback \<Rightarrow> service \<Rightarrow> service" where
  "unsubscribe subscriber s = s\<lparr>subscribers := removeAll subscriber (subscribers s)\<rparr>"

definition unsubscribeAll :: "service \<Rightarrow> service" where
  "unsubscribeAll s = s\<lparr>subscribers := []\<rparr>"

definition capture_baseline :: "service \<Rightarrow> service" where
  \<comment> \<open>\<^verbatim>\<open>if (!this.#queuedUpdateNotice) this.#preBatchStaleState = { ...this.#target }\<close>\<close>
  "capture_baseline s =
     (if \<not> queuedUpdateNotice s
      then (let (a, s') = alloc (spread (heap s (target s))) s
            in s'\<lparr>preBatchStaleState := a\<rparr>)
      else s)"

definition amendState :: "key \<Rightarrow> jsval \<Rightarrow> service \<Rightarrow> bool \<times> service" where
  "amendState k change s =
     (if Object_is (Reflect_get (heap s (target s)) k) change then (True, s)
      else
        let s1 = capture_baseline s;
            (ok, t) = Reflect_set (heap s1 (target s1)) k change
        in (ok, s1\<lparr>heap := (heap s1)(target s1 := t)\<rparr>))"

definition pruneState :: "key \<Rightarrow> service \<Rightarrow> bool \<times> service" where
  "pruneState k s =
     (if \<not> Object_hasOwn (heap s (target s)) k then (True, s)
      else
        let s1 = capture_baseline s;
            (ok, t) = Reflect_deleteProperty (heap s1 (target s1)) k
        in (ok, s1\<lparr>heap := (heap s1)(target s1 := t)\<rparr>))"

definition addToQueue :: "service \<Rightarrow> service" where
  \<comment> \<open>the job itself is \<open>queued_job\<close> below\<close>
  "addToQueue s =
     (if queuedUpdateNotice s then s
      else s\<lparr>queuedUpdateNotice := True, microtasks := Suc (microtasks s)\<rparr>)"

definition agent_set :: "key \<Rightarrow> jsval \<Rightarrow> service \<Rightarrow> bool \<times> service" where
  "agent_set k v s =
     (let hadChange = \<not> Object_is (Reflect_get (heap s (target s)) k) v;
          (result, s1) = amendState k v s
      in (result, if hadChange \<and> result then addToQueue s1 else s1))"

definition agent_deleteProperty :: "key \<Rightarrow> service \<Rightarrow> bool \<times> service" where
  "agent_deleteProperty k s =
     (let hadChange = Object_hasOwn (heap s (target s)) k;
          (result, s1) = pruneState k s
      in (result, if hadChange \<and> result then addToQueue s1 else s1))"

text \<open>
  A write or deletion through the Proxy runs the trap; the boolean is what the trap
  returns to the Proxy. What the caller's assignment or \<^verbatim>\<open>delete\<close> expression makes of
  a \<open>False\<close> (nothing in sloppy code, a TypeError of its own in strict code) is outside
  the class; for a step of a subscriber body it is \<open>outcome\<close> below.
\<close>

fun view :: "mutation \<Rightarrow> service \<Rightarrow> bool \<times> service" where
  "view (Assign k v) s = agent_set k v s"
| "view (Remove k) s = agent_deleteProperty k s"

definition snapshot_addr :: "snapshot \<Rightarrow> nat \<Rightarrow> nat \<Rightarrow> nat" where
  "snapshot_addr w fresh stale = (case w of Fresh \<Rightarrow> fresh | Stale \<Rightarrow> stale)"

fun commit :: "mutation \<Rightarrow> jsobject \<Rightarrow> bool \<times> jsobject" where
  \<comment> \<open>the write or deletion on an ordinary object\<close>
  "commit (Assign k v) ob = Reflect_set ob k v"
| "commit (Remove k) ob = Reflect_deleteProperty ob k"

definition outcome :: "mode \<Rightarrow> bool \<Rightarrow> completion" where
  "outcome md ok = (if md = Strict \<and> \<not> ok then Thrown else Normal)"

fun run_action :: "nat \<Rightarrow> nat \<Rightarrow> action \<Rightarrow> service \<Rightarrow> completion \<times> service" where
  "run_action fresh stale (Mutate md m) s = (outcome md (fst (view m s)), snd (view m s))"
| "run_action fresh stale (CallAmendState k v) s = (Normal, snd (amendState k v s))"
| "run_action fresh stale (CallPruneState k) s = (Normal, snd (pruneState k s))"
| "run_action fresh stale (Touch md w m) s =
     (let a = snapshot_addr w fresh stale
      in (outcome md (fst (commit m (heap s a))),
          s\<lparr>heap := (heap s)(a := snd (commit m (heap s a)))\<rparr>))"
| "run_action fresh stale Throw s = (Thrown, s)"

fun run_body :: "nat \<Rightarrow> nat \<Rightarrow> action list \<Rightarrow> service \<Rightarrow> completion \<times> service" where
  "run_body fresh stale [] s = (Normal, s)"
| "run_body fresh stale (a # as) s =
     (case run_action fresh stale a s of
        (Thrown, s') \<Rightarrow> (Thrown, s')
      | (Normal, s') \<Rightarrow> run_body fresh stale as s')"

fun invoke :: "callback \<Rightarrow> nat \<Rightarrow> nat \<Rightarrow> service \<Rightarrow> completion \<times> service" where
  "invoke (Callback i body) fresh stale s =
     run_body fresh stale body (s\<lparr>trace := trace s @ [Delivered (Callback i body) fresh stale]\<rparr>)"

text \<open>
  The loop \<^verbatim>\<open>for (const subscriber of this.#subscribers) subscriber(frozenFresh, frozenStale)\<close>.
  There is no \<^verbatim>\<open>try\<close> around the call: a subscriber that throws ends the loop.
\<close>

fun deliver :: "callback list \<Rightarrow> nat \<Rightarrow> nat \<Rightarrow> service \<Rightarrow> completion \<times> service" where
  "deliver [] fresh stale s = (Normal, s)"
| "deliver (subscriber # rest) fresh stale s =
     (case invoke subscriber fresh stale s of
        (Thrown, s') \<Rightarrow> (Thrown, s')
      | (Normal, s') \<Rightarrow> deliver rest fresh stale s')"

definition emitQueued :: "nat \<Rightarrow> nat \<Rightarrow> service \<Rightarrow> completion \<times> service" where
  "emitQueued fresh stale s =
     (let (frozenFresh, s1) = alloc (Object_freeze (spread (heap s fresh))) s;
          (frozenStale, s2) = alloc (Object_freeze (spread (heap s1 stale))) s1
      in deliver (subscribers s2) frozenFresh frozenStale s2)"

definition queued_job :: "service \<Rightarrow> completion \<times> service" where
  \<comment> \<open>the arrow function given to \<^verbatim>\<open>then\<close> in \<^verbatim>\<open>addToQueue\<close>\<close>
  "queued_job s =
     (case emitQueued (target s) (preBatchStaleState s) s of
        (Thrown, s1) \<Rightarrow> (Thrown, s1)
      | (Normal, s1) \<Rightarrow>
          (let s2 = s1\<lparr>queuedUpdateNotice := False\<rparr>;
               (a, s3) = alloc empty_object s2
           in (Normal, s3\<lparr>preBatchStaleState := a\<rparr>)))"

definition run_microtask :: "service \<Rightarrow> completion \<times> service" where
  \<comment> \<open>the event loop takes the oldest queued job, if any, and runs it\<close>
  "run_microtask s =
     (if microtasks s = 0 then (Normal, s)
      else queued_job (s\<lparr>microtasks := microtasks s - 1\<rparr>))"

fun run_mutations :: "mutation list \<Rightarrow> service \<Rightarrow> service" where
  "run_mutations [] s = s"
| "run_mutations (m # ms) s = run_mutations ms (snd (view m s))"


section \<open>Notions used to state the properties\<close>

text \<open>
  The addresses of target and baseline are allocated and distinct. Every state built by
  the constructor and the operations above is of this kind (\<open>invariant_run_calls\<close> below).
\<close>

definition well_formed :: "service \<Rightarrow> bool" where
  "well_formed s = (target s < nxt s \<and> preBatchStaleState s < nxt s \<and> target s \<noteq> preBatchStaleState s)"

text \<open>
  The two traps compute \<^verbatim>\<open>hadChange\<close> the same way as the guards of \<^verbatim>\<open>amendState\<close> and
  \<^verbatim>\<open>pruneState\<close>; \<open>commit\<close> above is the call on the store that the two methods end
  with, and \<open>direct\<close> is the method behind each kind of mutation.
\<close>

fun hadChange :: "mutation \<Rightarrow> service \<Rightarrow> bool" where
  "hadChange (Assign k v) s = (\<not> Object_is (Reflect_get (heap s (target s)) k) v)"
| "hadChange (Remove k) s = Object_hasOwn (heap s (target s)) k"

definition direct :: "mutation \<Rightarrow> service \<Rightarrow> bool \<times> service" where
  "direct m s = (case m of Assign k v \<Rightarrow> amendState k v s | Remove k \<Rightarrow> pruneState k s)"

text \<open>
  A mutation is effective in a state when it is a change against the live value and the
  store accepts its commit. These are the mutations for which the trap's condition
  \<^verbatim>\<open>hadChange && result\<close> holds (\<open>effective_view\<close> below).
\<close>

definition effective :: "mutation \<Rightarrow> service \<Rightarrow> bool" where
  "effective m s = (hadChange m s \<and> fst (commit m (heap s (target s))))"

fun all_effective :: "mutation list \<Rightarrow> service \<Rightarrow> bool" where
  "all_effective [] s = True"
| "all_effective (m # ms) s = (effective m s \<and> all_effective ms (snd (view m s)))"

fun any_effective :: "mutation list \<Rightarrow> service \<Rightarrow> bool" where
  "any_effective [] s = False"
| "any_effective (m # ms) s = (effective m s \<or> any_effective ms (snd (view m s)))"








text \<open>
  The life of a service as its owner drives it: writes and deletions through the state
  view, calls of \<^verbatim>\<open>amendState\<close>, \<^verbatim>\<open>pruneState\<close> and the three subscription methods, turns
  of the event loop (\<open>Tick\<close> runs the next queued job), and write or deletion attempts,
  in either form, on snapshot objects that some subscriber was handed earlier (\<open>Poke\<close>).
  A TypeError that a strict expression of the owner raises is the owner's and is not
  recorded; the state is the same in both forms. The owner calling \<^verbatim>\<open>addToQueue\<close> or
  \<^verbatim>\<open>emitQueued\<close> itself, which the class uses internally but does not hide, is not part
  of this alphabet: the states called reachable below are those reached by these calls.
\<close>

datatype call =
    Write mutation
  | Amend key jsval
  | Prune key
  | Sub callback
  | Unsub callback
  | UnsubAll
  | Tick
  | Poke nat mutation

definition delivered :: "nat \<Rightarrow> event list \<Rightarrow> bool" where
  "delivered a tr = (\<exists>e \<in> set tr. case e of Delivered cb ff fs \<Rightarrow> a = ff \<or> a = fs)"

fun exec :: "call \<Rightarrow> service \<Rightarrow> service" where
  "exec (Write m) s = snd (view m s)"
| "exec (Amend k v) s = snd (amendState k v s)"
| "exec (Prune k) s = snd (pruneState k s)"
| "exec (Sub cb) s = subscribe cb s"
| "exec (Unsub cb) s = unsubscribe cb s"
| "exec UnsubAll s = unsubscribeAll s"
| "exec Tick s = snd (run_microtask s)"
| "exec (Poke a m) s =
     (if delivered a (trace s) then s\<lparr>heap := (heap s)(a := snd (commit m (heap s a)))\<rparr>
      else s)"

fun run_calls :: "call list \<Rightarrow> service \<Rightarrow> service" where
  "run_calls [] s = s"
| "run_calls (c # cs) s = run_calls cs (exec c s)"





subsection \<open>Sample inputs\<close>

definition num :: "int \<Rightarrow> jsval" where
  "num n = VNumber (Finite n)"

definition observer :: callback where
  \<comment> \<open>\<^verbatim>\<open>(fresh, stale) => {}\<close>\<close>
  "observer = Callback 0 []"

definition meddler :: callback where
  \<comment> \<open>\<^verbatim>\<open>(fresh, stale) => { service.state.b = 9 }\<close>\<close>
  "meddler = Callback 1 [Mutate Strict (Assign ''b'' (num 9))]"

definition thrower :: callback where
  \<comment> \<open>\<^verbatim>\<open>(fresh, stale) => { throw new Error() }\<close>\<close>
  "thrower = Callback 2 [Throw]"

definition scribbler :: callback where
  \<comment> \<open>\<^verbatim>\<open>(fresh, stale) => { Reflect.set(fresh, 'a', 7); Reflect.deleteProperty(stale, 'a') }\<close>\<close>
  "scribbler = Callback 3 [Touch Quiet Fresh (Assign ''a'' (num 7)), Touch Quiet Stale (Remove ''a'')]"


definition source_ab :: jsobject where
  \<comment> \<open>\<^verbatim>\<open>{a: 1, b: 2}\<close>\<close>
  "source_ab = literal [(''a'', num 1), (''b'', num 2)]"

definition observed :: "jsobject \<Rightarrow> service" where
  \<comment> \<open>a new service over the source, with \<open>observer\<close> subscribed\<close>
  "observed source = subscribe observer (ObservableService source)"

definition meddled_history :: "call list" where
  \<comment> \<open>\<open>meddler\<close> subscribed, then \<^verbatim>\<open>state.a = 3\<close>\<close>
  "meddled_history = [Sub meddler, Write (Assign ''a'' (num 3))]"

definition meddled :: service where
  \<comment> \<open>the service over \<^verbatim>\<open>{a: 1, b: 2}\<close> after that and the flush\<close>
  "meddled = snd (run_microtask (run_calls meddled_history (ObservableService source_ab)))"

definition faulty_history :: "call list" where
  \<comment> \<open>three subscribers, the second of which throws, then \<^verbatim>\<open>state.a = 3\<close>\<close>
  "faulty_history = [Sub observer, Sub thrower, Sub scribbler, Write (Assign ''a'' (num 3))]"

definition faulted :: service where
  \<comment> \<open>the service over \<^verbatim>\<open>{a: 1, b: 2}\<close> after that and the flush\<close>
  "faulted = snd (run_microtask (run_calls faulty_history (ObservableService source_ab)))"

definition later_batch :: "mutation list" where
  \<comment> \<open>\<^verbatim>\<open>state.a = 5; state.b = 7\<close>\<close>
  "later_batch = [Assign ''a'' (num 5), Assign ''b'' (num 7)]"

definition later_flip :: "mutation list" where
  \<comment> \<open>\<^verbatim>\<open>state.a = 5; state.a = 3\<close>: in \<open>faulted\<close>, a write and its revert\<close>
  "later_flip = [Assign ''a'' (num 5), Assign ''a'' (num 3)]"







section \<open>Supporting lemmas\<close>

lemma Object_is_iff: "Object_is x y \<longleftrightarrow> x = y"
  by (cases x; cases y) (auto simp: Object_is_def Number_sameValue_def)





lemma capture_baseline_fields:
  "trace (capture_baseline s) = trace s"
  "queuedUpdateNotice (capture_baseline s) = queuedUpdateNotice s"
  "microtasks (capture_baseline s) = microtasks s"
  "target (capture_baseline s) = target s"
  by (simp_all add: capture_baseline_def alloc_def)

lemma capture_baseline_target:
  "well_formed s \<Longrightarrow> heap (capture_baseline s) (target s) = heap s (target s)"
  by (simp add: capture_baseline_def alloc_def well_formed_def)

lemma capture_baseline_idle:
  "\<not> queuedUpdateNotice s \<Longrightarrow>
     preBatchStaleState (capture_baseline s) = nxt s \<and>
     nxt (capture_baseline s) = Suc (nxt s) \<and>
     heap (capture_baseline s) (nxt s) = spread (heap s (target s))"
  by (simp add: capture_baseline_def alloc_def)


lemma amendState_eq:
  "amendState k v s =
     (if \<not> hadChange (Assign k v) s then (True, s)
      else (fst (commit (Assign k v) (heap (capture_baseline s) (target s))),
            (capture_baseline s)\<lparr>heap := (heap (capture_baseline s))
               (target s := snd (commit (Assign k v) (heap (capture_baseline s) (target s))))\<rparr>))"
  by (simp add: amendState_def Let_def capture_baseline_fields split: prod.splits)

lemma pruneState_eq:
  "pruneState k s =
     (if \<not> hadChange (Remove k) s then (True, s)
      else (fst (commit (Remove k) (heap (capture_baseline s) (target s))),
            (capture_baseline s)\<lparr>heap := (heap (capture_baseline s))
               (target s := snd (commit (Remove k) (heap (capture_baseline s) (target s))))\<rparr>))"
  by (simp add: pruneState_def Let_def capture_baseline_fields split: prod.splits)

lemma direct_eq:
  "direct m s =
     (if \<not> hadChange m s then (True, s)
      else (fst (commit m (heap (capture_baseline s) (target s))),
            (capture_baseline s)\<lparr>heap := (heap (capture_baseline s))
               (target s := snd (commit m (heap (capture_baseline s) (target s))))\<rparr>))"
  by (cases m) (simp_all only: direct_def mutation.case amendState_eq pruneState_eq)

lemma view_eq:
  "view m s = (fst (direct m s),
               if hadChange m s \<and> fst (direct m s) then addToQueue (snd (direct m s))
               else snd (direct m s))"
  by (cases m) (simp_all add: direct_def agent_set_def agent_deleteProperty_def Let_def split: prod.splits)












































lemma view_pending:
  "queuedUpdateNotice s \<Longrightarrow>
     queuedUpdateNotice (snd (view m s)) \<and> microtasks (snd (view m s)) = microtasks s \<and>
     preBatchStaleState (snd (view m s)) = preBatchStaleState s \<and> nxt (snd (view m s)) = nxt s"
  by (simp add: view_eq direct_eq capture_baseline_def addToQueue_def)



lemma all_any_effective: "ms \<noteq> [] \<Longrightarrow> all_effective ms s \<Longrightarrow> any_effective ms s"
  by (cases ms) simp_all








section \<open>The claims\<close>

text \<open>
  C1 says that every batch of change-worthy mutations through the state view, made in
  one synchronous turn, is followed by exactly one notification. The code departs from
  it once a subscriber has thrown: the queued job then skips the two statements that
  clear \<^verbatim>\<open>#queuedUpdateNotice\<close> and the baseline, and \<^verbatim>\<open>addToQueue\<close> returns early from
  then on. After the flush in which \<open>thrower\<close> threw,
  \<^verbatim>\<open>state.a = 5; state.b = 7\<close> are both changes against the live values and both
  committed, yet no job is queued and the next turn of the event loop calls nobody.
\<close>

theorem batch_after_fault_is_silent:
  "trace faulted = [Delivered observer 3 4, Delivered thrower 3 4] \<and>
   queuedUpdateNotice faulted \<and>
   all_effective later_batch faulted \<and>
   entries (heap (run_mutations later_batch faulted) 0) ''a'' = Some (num 5) \<and>
   entries (heap (run_mutations later_batch faulted) 0) ''b'' = Some (num 7) \<and>
   microtasks (run_mutations later_batch faulted) = 0 \<and>
   trace (snd (run_microtask (run_mutations later_batch faulted))) =
     [Delivered observer 3 4, Delivered thrower 3 4]"
  by code_simp

text \<open>
  C2 says that a change-worthy mutation made by a subscriber during delivery starts a
  batch of its own, with a new baseline and a second notification. The code departs
  from it: on \<^verbatim>\<open>{a: 1, b: 2}\<close> with a subscriber that assigns \<^verbatim>\<open>b = 9\<close> through the view,
  after \<^verbatim>\<open>state.a = 3\<close> and the flush the subscriber has been called once, with a fresh
  snapshot that still has \<^verbatim>\<open>b = 2\<close>; its own write is in the record, but the batch flag
  is clear, no job is queued, the baseline is the empty object, and the next turn of the
  event loop delivers nothing.
\<close>

theorem reentrant_mutation_swallowed:
  "trace meddled = [Delivered meddler 3 4] \<and>
   entries (heap meddled (target meddled)) ''b'' = Some (num 9) \<and>
   entries (heap meddled 3) ''b'' = Some (num 2) \<and>
   \<not> queuedUpdateNotice meddled \<and>
   microtasks meddled = 0 \<and>
   entries (heap meddled (preBatchStaleState meddled)) ''a'' = None \<and>
   trace (snd (run_microtask meddled)) = [Delivered meddler 3 4]"
  by code_simp




text \<open>
  C4. Assigning to a key the value it already has under \<^verbatim>\<open>Object.is\<close> is a no-op that
  reports success: the trap and \<^verbatim>\<open>amendState\<close> return \<open>True\<close> and the whole state of the
  service, with the baseline, the batch flag and the microtask queue, is unchanged.
  \<^verbatim>\<open>Object.is\<close> takes \<open>NaN\<close> to be the same as \<open>NaN\<close> and tells the two zeros apart,
  where \<^verbatim>\<open>===\<close> does the opposite.
\<close>

theorem noop_assign:
  "(Object_is (Reflect_get (heap s (target s)) k) v \<longrightarrow>
      agent_set k v s = (True, s) \<and> amendState k v s = (True, s)) \<and>
   Object_is (VNumber NaN) (VNumber NaN) \<and>
   \<not> strict_equals (VNumber NaN) (VNumber NaN) \<and>
   \<not> Object_is (VNumber (Finite 0)) (VNumber NegZero) \<and>
   \<not> Object_is (VNumber NegZero) (VNumber (Finite 0)) \<and>
   strict_equals (VNumber (Finite 0)) (VNumber NegZero)"
  by (simp add: agent_set_def amendState_def Object_is_def strict_equals_def
      Number_sameValue_def Number_equal_def)

theorem noop_assign_witness:
  "Object_is (Reflect_get (heap (observed (literal [(''a'', VNumber NaN)]))
                (target (observed (literal [(''a'', VNumber NaN)])))) ''a'') (VNumber NaN) \<and>
   agent_set ''a'' (VNumber NaN) (observed (literal [(''a'', VNumber NaN)])) =
     (True, observed (literal [(''a'', VNumber NaN)])) \<and>
   microtasks (snd (agent_set ''a'' (VNumber NaN) (observed (literal [(''a'', VNumber NaN)])))) = 0 \<and>
   microtasks (snd (agent_set ''z'' (VNumber NegZero) (observed (literal [(''z'', VNumber (Finite 0))])))) = 1"
proof -
  let ?s = "observed (literal [(''a'', VNumber NaN)])"
  have h: "Object_is (Reflect_get (heap ?s (target ?s)) ''a'') (VNumber NaN)"
    by code_simp
  have m: "microtasks ?s = 0" by code_simp
  have z: "microtasks (snd (agent_set ''z'' (VNumber NegZero) (observed (literal [(''z'', VNumber (Finite 0))])))) = 1"
    by code_simp
  show ?thesis using h m z noop_assign [of ?s "''a''" "VNumber NaN"] by simp
qed

text \<open>
  C5 says that a batch notifies when some call in it was judged a change when it ran,
  whatever the net effect, so that a write followed by its revert yields exactly one
  notification. The code departs from it once a subscriber has thrown, for the reason
  given at C1: after the flush in which \<open>thrower\<close> threw, \<^verbatim>\<open>state.a = 5; state.a = 3\<close>
  are two changes against the live value, both committed, and no job is queued and
  nobody is called.
\<close>

theorem revert_after_fault_is_silent:
  "queuedUpdateNotice faulted \<and>
   entries (heap faulted 0) ''a'' = Some (num 3) \<and>
   all_effective later_flip faulted \<and>
   entries (heap (run_mutations later_flip faulted) 0) ''a'' = Some (num 3) \<and>
   microtasks (run_mutations later_flip faulted) = 0 \<and>
   trace (snd (run_microtask (run_mutations later_flip faulted))) = trace faulted"
  by code_simp




text \<open>
  C7, as stated, fails for the lower-level \<^verbatim>\<open>amendState\<close>: on \<^verbatim>\<open>{a: 1, b: 2}\<close> with an
  observer subscribed, \<^verbatim>\<open>service.amendState('a', 5)\<close> returns \<open>True\<close> and stores 5, but
  sets no batch flag and queues no job, and the next turn of the event loop calls nobody.
\<close>

theorem amendState_alone_schedules_nothing:
  "fst (amendState ''a'' (num 5) (observed source_ab)) \<and>
   Reflect_get (heap (snd (amendState ''a'' (num 5) (observed source_ab))) 0) ''a'' = num 5 \<and>
   \<not> queuedUpdateNotice (snd (amendState ''a'' (num 5) (observed source_ab))) \<and>
   microtasks (snd (amendState ''a'' (num 5) (observed source_ab))) = 0 \<and>
   trace (snd (run_microtask (snd (amendState ''a'' (num 5) (observed source_ab))))) = []"
  by code_simp

text \<open>
  C7, amended. For an assignment whose value differs from the current value of the key
  and which the store accepts: \<^verbatim>\<open>amendState\<close> captures the baseline as a shallow copy of
  the record before the write when the batch flag is clear (and keeps the baseline when
  it is set), then commits the value; it leaves the flag and the microtask queue alone.
  The \<^verbatim>\<open>set\<close> trap of the state view does the same and then calls \<^verbatim>\<open>addToQueue\<close>: with
  the flag clear this sets it and queues one job, with the flag set it changes nothing.
\<close>

theorem changed_assign:
  assumes "well_formed s" and "\<not> Object_is (Reflect_get (heap s (target s)) k) v"
    and "fst (Reflect_set (heap s (target s)) k v)"
  shows "fst (amendState k v s) \<and> fst (agent_set k v s) \<and>
    snd (agent_set k v s) = addToQueue (snd (amendState k v s)) \<and>
    heap (snd (amendState k v s)) (target s) = snd (Reflect_set (heap s (target s)) k v) \<and>
    queuedUpdateNotice (snd (amendState k v s)) = queuedUpdateNotice s \<and>
    microtasks (snd (amendState k v s)) = microtasks s \<and>
    (\<not> queuedUpdateNotice s \<longrightarrow>
       preBatchStaleState (snd (amendState k v s)) = nxt s \<and>
       heap (snd (amendState k v s)) (nxt s) = spread (heap s (target s))) \<and>
    (queuedUpdateNotice s \<longrightarrow>
       preBatchStaleState (snd (amendState k v s)) = preBatchStaleState s \<and>
       heap (snd (amendState k v s)) (preBatchStaleState s) = heap s (preBatchStaleState s)) \<and>
    queuedUpdateNotice (snd (agent_set k v s)) \<and>
    microtasks (snd (agent_set k v s)) =
      (if queuedUpdateNotice s then microtasks s else Suc (microtasks s))"
proof -
  let ?m = "Assign k v"
  have hc: "hadChange ?m s" using assms(2) by simp
  have d: "direct ?m s = amendState k v s" by (simp add: direct_def)
  have t: "target s < nxt s" "preBatchStaleState s < nxt s" "target s \<noteq> preBatchStaleState s"
    using assms(1) by (simp_all add: well_formed_def)
  have ct: "heap (capture_baseline s) (target s) = heap s (target s)"
    using assms(1) by (rule capture_baseline_target)
  have am: "amendState k v s =
      (True, (capture_baseline s)\<lparr>heap := (heap (capture_baseline s))
                (target s := snd (Reflect_set (heap s (target s)) k v))\<rparr>)"
    using hc assms(3) direct_eq [of ?m s] by (simp add: d ct prod_eq_iff)
  have ag: "agent_set k v s = (True, addToQueue (snd (amendState k v s)))"
    using assms(2) am by (simp add: agent_set_def)
  have idle: "preBatchStaleState (snd (amendState k v s)) = nxt s \<and>
       heap (snd (amendState k v s)) (nxt s) = spread (heap s (target s))"
    if "\<not> queuedUpdateNotice s"
    using capture_baseline_idle [OF that] t by (simp add: am)
  have pend: "preBatchStaleState (snd (amendState k v s)) = preBatchStaleState s \<and>
       heap (snd (amendState k v s)) (preBatchStaleState s) = heap s (preBatchStaleState s)"
    if "queuedUpdateNotice s"
    using that t by (simp add: am capture_baseline_def)
  have q: "queuedUpdateNotice (snd (amendState k v s)) = queuedUpdateNotice s"
    "microtasks (snd (amendState k v s)) = microtasks s"
    "heap (snd (amendState k v s)) (target s) = snd (Reflect_set (heap s (target s)) k v)"
    by (simp_all add: am capture_baseline_fields)
  show ?thesis using am ag idle pend q by (simp add: addToQueue_def)
qed

theorem changed_assign_witness:
  "well_formed (observed source_ab) \<and>
   \<not> Object_is (Reflect_get (heap (observed source_ab) (target (observed source_ab))) ''a'') (num 5) \<and>
   fst (Reflect_set (heap (observed source_ab) (target (observed source_ab))) ''a'' (num 5)) \<and>
   fst (agent_set ''a'' (num 5) (observed source_ab)) \<and>
   queuedUpdateNotice (snd (agent_set ''a'' (num 5) (observed source_ab))) \<and>
   microtasks (snd (agent_set ''a'' (num 5) (observed source_ab))) = 1 \<and>
   preBatchStaleState (snd (amendState ''a'' (num 5) (observed source_ab))) = 2 \<and>
   heap (snd (amendState ''a'' (num 5) (observed source_ab))) 2 = spread source_ab"
proof -
  let ?s = "observed source_ab"
  have h: "well_formed ?s"
    "\<not> Object_is (Reflect_get (heap ?s (target ?s)) ''a'') (num 5)"
    "fst (Reflect_set (heap ?s (target ?s)) ''a'' (num 5))"
    by code_simp+
  have n: "nxt ?s = 2" "\<not> queuedUpdateNotice ?s" "microtasks ?s = 0" by code_simp+
  have t: "heap ?s (target ?s) = source_ab"
    by (simp add: observed_def subscribe_def ObservableService_def)
  note c = changed_assign [OF h]
  have a: "fst (agent_set ''a'' (num 5) ?s)" "queuedUpdateNotice (snd (agent_set ''a'' (num 5) ?s))"
    "microtasks (snd (agent_set ''a'' (num 5) ?s)) =
       (if queuedUpdateNotice ?s then microtasks ?s else Suc (microtasks ?s))"
    "\<not> queuedUpdateNotice ?s \<longrightarrow>
       preBatchStaleState (snd (amendState ''a'' (num 5) ?s)) = nxt ?s \<and>
       heap (snd (amendState ''a'' (num 5) ?s)) (nxt ?s) = spread (heap ?s (target ?s))"
    using c by blast+
  show ?thesis using h n t a by simp
qed






text \<open>
  C10. \<^verbatim>\<open>subscribe\<close>, \<^verbatim>\<open>unsubscribe\<close> and \<^verbatim>\<open>unsubscribeAll\<close> change the subscriber set and
  nothing else: the store (hence the tracked record and the baseline object), the
  addresses of target and baseline, the batch flag, the microtask queue and the trace of
  deliveries are as before, so none of the three schedules a flush or notifies anybody.
\<close>

theorem subscription_frame:
  "subscribe cb s = s\<lparr>subscribers := subscribers (subscribe cb s)\<rparr> \<and>
   unsubscribe cb s = s\<lparr>subscribers := removeAll cb (subscribers s)\<rparr> \<and>
   unsubscribeAll s = s\<lparr>subscribers := []\<rparr> \<and>
   set (subscribers (subscribe cb s)) = insert cb (set (subscribers s)) \<and>
   (let s' = subscribe cb s in
      heap s' = heap s \<and> target s' = target s \<and> preBatchStaleState s' = preBatchStaleState s \<and>
      queuedUpdateNotice s' = queuedUpdateNotice s \<and> microtasks s' = microtasks s \<and>
      trace s' = trace s) \<and>
   (let s' = unsubscribe cb s in
      heap s' = heap s \<and> target s' = target s \<and> preBatchStaleState s' = preBatchStaleState s \<and>
      queuedUpdateNotice s' = queuedUpdateNotice s \<and> microtasks s' = microtasks s \<and>
      trace s' = trace s) \<and>
   (let s' = unsubscribeAll s in
      heap s' = heap s \<and> target s' = target s \<and> preBatchStaleState s' = preBatchStaleState s \<and>
      queuedUpdateNotice s' = queuedUpdateNotice s \<and> microtasks s' = microtasks s \<and>
      trace s' = trace s)"
  by (auto simp: subscribe_def unsubscribe_def unsubscribeAll_def)

end
